theory Spec2Isabelle
  imports Complex_Main "HOL-Library.Log_Nat"
begin

section \<open>Shallow embedding of the car simulator (main.cpp)\<close>

text \<open>
  The program is five periodic tasks over shared global variables. Each task's loop body
  is embedded as one function on the record of globals; the values read from the switch
  port are arguments of the task that reads them.

  The C++ \<open>float\<close> variables are embedded as reals. The speed and the pedal commands
  are computed in exact arithmetic on the expressions of the source. The odometry is an
  accumulator: each cycle adds a small increment to a growing sum and stores the result
  in a \<open>float\<close>, so the rounding of that store decides whether the sum changes at all;
  it is embedded with the rounding to the nearest single-precision value written out.
  The one place where a non-finite value arises in the source, the division by the size
  of the queue, is embedded with its IEEE 754 results written out, because a real
  division by zero in HOL would silently give 0.
\<close>

subsection \<open>Constants (the \<open>#define\<close> block)\<close>

definition MIN_SPEED :: real where "MIN_SPEED = 0"
definition MAX_SPEED :: real where "MAX_SPEED = 300"
definition LEGAL_SPEED :: real where "LEGAL_SPEED = 142"
definition CRUISE_SPEED :: real where "CRUISE_SPEED = 80"
definition CRUISE_BIAS :: real where "CRUISE_BIAS = 0.1"
definition FRICTION :: real where "FRICTION = 0.001"
definition FRICTION_BIAS :: real where "FRICTION_BIAS = 0.8"

lemmas sim_consts =
  MIN_SPEED_def MAX_SPEED_def LEGAL_SPEED_def CRUISE_SPEED_def CRUISE_BIAS_def
  FRICTION_def FRICTION_BIAS_def

subsection \<open>Values of a float division\<close>

datatype fval = Fin real | PInf | NInf | NaN

text \<open>\<open>x / y\<close> on floats: a zero divisor gives NaN for \<open>0 / 0\<close> and an infinity otherwise.\<close>

definition fdiv :: "real \<Rightarrow> real \<Rightarrow> fval" where
  "fdiv x y =
     (if y = 0 then (if x = 0 then NaN else if 0 < x then PInf else NInf)
      else Fin (x / y))"

text \<open>\<open>a > c\<close> for a float \<open>a\<close> and a finite constant \<open>c\<close>: false on NaN.\<close>

fun fgt :: "fval \<Rightarrow> real \<Rightarrow> bool" where
  "fgt (Fin x) c = (c < x)"
| "fgt PInf c = True"
| "fgt NInf c = False"
| "fgt NaN c = False"

subsection \<open>Rounding to single precision\<close>

text \<open>Rounding a real to an integer, to the nearest, ties to the even one.\<close>

definition round_even :: "real \<Rightarrow> int" where
  "round_even x =
     (let f = \<lfloor>x\<rfloor>; d = x - of_int f
      in if d < 1/2 then f else if 1/2 < d then f + 1 else if even f then f else f + 1)"

text \<open>
  Single-precision values are multiples of \<open>2\<^sup>-\<^sup>1\<^sup>4\<^sup>9\<close> with a significand of 24 bits.
  For a magnitude \<open>q\<close> counted in units of \<open>2\<^sup>-\<^sup>1\<^sup>4\<^sup>9\<close>, the spacing of the values around
  it is \<open>2 ^ ulp_shift q\<close> units: one unit up to 24 bits (the subnormal range and the
  first normal binade), doubling with every further bit. \<open>float32_round\<close> is the store
  of a wider value into a \<open>float\<close>: the nearest multiple of the spacing, ties to even.
  Overflow to infinity (magnitudes from \<open>2\<^sup>1\<^sup>2\<^sup>8\<close>) is not modelled.
\<close>

definition ulp_shift :: "real \<Rightarrow> nat" where
  "ulp_shift q = nat (bitlen \<lfloor>\<bar>q\<bar>\<rfloor> - 24)"

definition round_units :: "real \<Rightarrow> real" where
  "round_units q = of_int (round_even (q / 2 ^ ulp_shift q)) * 2 ^ ulp_shift q"

definition float32_round :: "real \<Rightarrow> real" where
  "float32_round x = round_units (x * 2 ^ 149) / 2 ^ 149"

definition is_float32 :: "real \<Rightarrow> bool" where
  "is_float32 x = (float32_round x = x)"

text \<open>Conversion of a float to \<open>int\<close> (the element type of the queue): towards zero.\<close>

definition trunc_int :: "real \<Rightarrow> int" where
  "trunc_int x = (if x < 0 then \<lceil>x\<rceil> else \<lfloor>x\<rfloor>)"

subsection \<open>The shared variables\<close>

record vehicle =
  ignition :: bool
  cruise_mode :: bool
  accel :: real
  brakes :: real
  current_speed :: real
  average_speed :: fval
  odometry :: real
  avg_speed_queue :: "int list"
  engine_indicator :: bool
  cruising_indicator :: bool
  speeding_indicator :: bool
  lcd :: "(fval \<times> real) option"

text \<open>
  The state at start-up: the initialisers of the globals, an empty queue, the three
  outputs low and a cleared display. \<open>lcd\<close> holds the two numbers last printed (average
  speed on row 0, odometry on row 1); their formatting is not modelled.
\<close>

definition init :: vehicle where
  "init = \<lparr> ignition = False, cruise_mode = False, accel = 0, brakes = 0,
            current_speed = 0, average_speed = Fin 0, odometry = 0,
            avg_speed_queue = [], engine_indicator = False,
            cruising_indicator = False, speeding_indicator = False, lcd = None \<rparr>"

subsection \<open>readInputs\<close>

definition readInputs :: "bool \<Rightarrow> bool \<Rightarrow> bool \<Rightarrow> vehicle \<Rightarrow> vehicle" where
  "readInputs engine_sw accel_sw brakes_sw s =
     (let s1 = s\<lparr>ignition := engine_sw\<rparr>;
          s2 = s1\<lparr>engine_indicator := ignition s1\<rparr>
      in if \<not> cruise_mode s2
         then s2\<lparr>accel := of_bool accel_sw, brakes := of_bool brakes_sw\<rparr>
         else s2)"

subsection \<open>calcAverageSpeed\<close>

text \<open>The loop over the queue, adding each entry to the float \<open>sum\<close>.\<close>

fun sum_loop :: "real \<Rightarrow> int list \<Rightarrow> real" where
  "sum_loop acc [] = acc"
| "sum_loop acc (x # xs) = sum_loop (acc + of_int x) xs"

definition calcAverageSpeed :: "vehicle \<Rightarrow> vehicle" where
  "calcAverageSpeed s =
     (let sum = sum_loop 0 (avg_speed_queue s);
          s1 = s\<lparr>average_speed := fdiv sum (of_nat (length (avg_speed_queue s)))\<rparr>
      in s1\<lparr>speeding_indicator := fgt (average_speed s1) LEGAL_SPEED\<rparr>)"

subsection \<open>displayToLCD\<close>

definition displayToLCD :: "vehicle \<Rightarrow> vehicle" where
  "displayToLCD s = s\<lparr>lcd := Some (average_speed s, odometry s)\<rparr>"

subsection \<open>cruiseControl\<close>

definition cruiseControl :: "bool \<Rightarrow> vehicle \<Rightarrow> vehicle" where
  "cruiseControl cc_sw s =
     (let s1 = s\<lparr>cruise_mode := cc_sw\<rparr>;
          s2 = s1\<lparr>cruising_indicator := (if ignition s1 then cruise_mode s1 else False)\<rparr>
      in if cruise_mode s2 \<and> ignition s2 then
           (if current_speed s2 > CRUISE_SPEED + FRICTION_BIAS then
              s2\<lparr>accel := 0,
                 brakes := (current_speed s2 - CRUISE_SPEED) / CRUISE_SPEED + CRUISE_BIAS\<rparr>
            else if current_speed s2 < CRUISE_SPEED + FRICTION_BIAS then
              s2\<lparr>accel := (CRUISE_SPEED - current_speed s2) / CRUISE_SPEED + CRUISE_BIAS,
                 brakes := 0\<rparr>
            else s2\<lparr>accel := 0, brakes := 0\<rparr>)
         else s2)"

subsection \<open>simulateCar\<close>

text \<open>The body of the loop, statement by statement.\<close>

definition update_speed :: "vehicle \<Rightarrow> vehicle" where
  "update_speed s =
     (if ignition s then s\<lparr>current_speed := current_speed s + (accel s - brakes s)\<rparr>
      else (let s1 = s\<lparr>accel := 0\<rparr>
            in s1\<lparr>current_speed := current_speed s1 + (accel s1 - 0.5 * brakes s1)\<rparr>))"

definition apply_drag :: "vehicle \<Rightarrow> vehicle" where
  "apply_drag s = s\<lparr>current_speed := current_speed s - FRICTION * current_speed s\<rparr>"

definition clamp_speed :: "vehicle \<Rightarrow> vehicle" where
  "clamp_speed s =
     (let s1 = (if current_speed s < MIN_SPEED then s\<lparr>current_speed := MIN_SPEED\<rparr> else s)
      in if current_speed s1 > MAX_SPEED then s1\<lparr>current_speed := MAX_SPEED\<rparr> else s1)"

definition push_history :: "vehicle \<Rightarrow> vehicle" where
  "push_history s =
     (let s1 = (if length (avg_speed_queue s) > 3
                then s\<lparr>avg_speed_queue := tl (avg_speed_queue s)\<rparr> else s)
      in s1\<lparr>avg_speed_queue := avg_speed_queue s1 @ [trunc_int (current_speed s1)]\<rparr>)"

text \<open>
  \<open>odometry += current_speed * 1.0/25.0\<close>: the sum is formed in double precision (taken
  as exact here) and stored into the \<open>float odometry\<close>.
\<close>

definition update_odometry :: "vehicle \<Rightarrow> vehicle" where
  "update_odometry s =
     s\<lparr>odometry := float32_round (odometry s + current_speed s * 1 / 25)\<rparr>"

definition simulateCar :: "vehicle \<Rightarrow> vehicle" where
  "simulateCar s =
     update_odometry (push_history (clamp_speed (apply_drag (update_speed s))))"

subsection \<open>Interleavings of the five tasks\<close>

text \<open>
  One cycle of a task, with the switch values it reads. A run is a sequence of cycles in
  any order, each taken as a whole.
\<close>

datatype cycle =
    ReadInputs bool bool bool
  | CalcAverageSpeed
  | DisplayToLCD
  | CruiseControl bool
  | SimulateCar

fun step :: "cycle \<Rightarrow> vehicle \<Rightarrow> vehicle" where
  "step (ReadInputs e a b) s = readInputs e a b s"
| "step CalcAverageSpeed s = calcAverageSpeed s"
| "step DisplayToLCD s = displayToLCD s"
| "step (CruiseControl c) s = cruiseControl c s"
| "step SimulateCar s = simulateCar s"

fun run :: "cycle list \<Rightarrow> vehicle \<Rightarrow> vehicle" where
  "run [] s = s"
| "run (c # cs) s = run cs (step c s)"

subsection \<open>Observations of a run\<close>

text \<open>The value of \<open>current_speed\<close> left by each cycle of simulateCar in a run, oldest first.\<close>

fun speed_log :: "cycle list \<Rightarrow> vehicle \<Rightarrow> real list" where
  "speed_log [] s = []"
| "speed_log (SimulateCar # cs) s =
     current_speed (simulateCar s) # speed_log cs (simulateCar s)"
| "speed_log (c # cs) s = speed_log cs (step c s)"

text \<open>The last \<open>n\<close> elements of a list, in their order.\<close>

definition lastn :: "nat \<Rightarrow> 'a list \<Rightarrow> 'a list" where
  "lastn n xs = drop (length xs - n) xs"

subsection \<open>Cruise controller driving the simulation\<close>

text \<open>
  One cycle of cruiseControl with the cruise switch on, followed by one cycle of
  simulateCar; the start state has the ignition on, cruise mode on and speed 0.
\<close>

definition cruise_cycle :: "vehicle \<Rightarrow> vehicle" where
  "cruise_cycle s = simulateCar (cruiseControl True s)"

definition cruise_start :: vehicle where
  "cruise_start = init\<lparr>ignition := True, cruise_mode := True\<rparr>"

definition cruise_speed :: "nat \<Rightarrow> real" where
  "cruise_speed n = current_speed ((cruise_cycle ^^ n) cruise_start)"

subsection \<open>The mutexes\<close>

text \<open>
  The lock and unlock calls of one iteration of each thread's loop, in program order:
  thread25Hz runs readInputs, thread5Hz calcAverageSpeed, thread2Hz displayToLCD,
  thread20Hz cruiseControl and threadSim simulateCar. \<open>portMutex\<close> is taken by the
  tasks that write the ignition, the pedal commands and the cruise mode,
  \<open>avgSpeedMutex\<close> by those that write the speed, its history, the average and the
  odometry; \<open>engineMutex\<close> is declared and never used.
\<close>

datatype mutex = engineMutex | portMutex | avgSpeedMutex

datatype lock_op = Lock mutex | Unlock mutex

datatype thread = thread2Hz | thread5Hz | threadSim | thread20Hz | thread25Hz

fun lock_ops :: "thread \<Rightarrow> lock_op list" where
  "lock_ops thread25Hz = [Lock portMutex, Unlock portMutex]"
| "lock_ops thread5Hz = [Lock avgSpeedMutex, Unlock avgSpeedMutex]"
| "lock_ops thread2Hz =
     [Lock avgSpeedMutex, Lock portMutex, Unlock avgSpeedMutex, Unlock portMutex]"
| "lock_ops thread20Hz = [Lock portMutex, Unlock portMutex]"
| "lock_ops threadSim = [Lock avgSpeedMutex, Unlock avgSpeedMutex]"

text \<open>The mutexes a thread holds after a sequence of operations, given those held before.\<close>

fun held_after :: "mutex list \<Rightarrow> lock_op list \<Rightarrow> mutex list" where
  "held_after h [] = h"
| "held_after h (Lock m # ops) = held_after (m # h) ops"
| "held_after h (Unlock m # ops) = held_after (remove1 m h) ops"

text \<open>
  The nested acquisitions of a sequence of operations: a pair \<open>(a, b)\<close> for every lock
  of \<open>b\<close> made while \<open>a\<close> is held.
\<close>

fun nested :: "mutex list \<Rightarrow> lock_op list \<Rightarrow> (mutex \<times> mutex) list" where
  "nested h [] = []"
| "nested h (Lock m # ops) = map (\<lambda>a. (a, m)) h @ nested (m # h) ops"
| "nested h (Unlock m # ops) = nested (remove1 m h) ops"

definition lock_order :: "thread \<Rightarrow> (mutex \<times> mutex) list" where
  "lock_order t = nested [] (lock_ops t)"

text \<open>
  A configuration of the threads gives each its position in its loop (taken modulo the
  length of the loop). From it: the operation a thread is about to make, the mutexes it
  holds, and whether it waits for a mutex another thread holds.
\<close>

type_synonym positions = "thread \<Rightarrow> nat"

definition next_op :: "positions \<Rightarrow> thread \<Rightarrow> lock_op" where
  "next_op pc t = lock_ops t ! (pc t mod length (lock_ops t))"

definition holds :: "positions \<Rightarrow> thread \<Rightarrow> mutex list" where
  "holds pc t = held_after [] (take (pc t mod length (lock_ops t)) (lock_ops t))"

definition waits_for :: "positions \<Rightarrow> thread \<Rightarrow> thread \<Rightarrow> bool" where
  "waits_for pc t u =
     (t \<noteq> u \<and> (case next_op pc t of Lock m \<Rightarrow> m \<in> set (holds pc u) | Unlock m \<Rightarrow> False))"

section \<open>Basic facts\<close>

lemma run_append: "run (cs @ ds) s = run ds (run cs s)"
  by (induction cs arbitrary: s) simp_all

lemma clamp_speed_bounds:
  "MIN_SPEED \<le> current_speed (clamp_speed s) \<and> current_speed (clamp_speed s) \<le> MAX_SPEED"
  by (simp add: clamp_speed_def Let_def sim_consts)

lemma current_speed_simulateCar:
  "current_speed (simulateCar s) = current_speed (clamp_speed (apply_drag (update_speed s)))"
  by (simp add: simulateCar_def update_odometry_def push_history_def Let_def)

section \<open>Speed bounds\<close>

text \<open>
  C1. Whatever the tasks did before (any sequence of cycles with any switch values, from
  any state), after a cycle of simulateCar the current speed lies between MIN\_SPEED
  and MAX\_SPEED.
\<close>

theorem C1_speed_bounds_after_simulateCar:
  "MIN_SPEED \<le> current_speed (run (cs @ [SimulateCar]) s) \<and>
   current_speed (run (cs @ [SimulateCar]) s) \<le> MAX_SPEED"
  by (simp only: run_append run.simps step.simps current_speed_simulateCar
      clamp_speed_bounds)

section \<open>The cruise controller's law\<close>

text \<open>
  C2. In a cycle of cruiseControl in which cruise mode (the switch value the cycle has
  just stored) and the ignition are both on, the pedal commands are set by the
  proportional law: above CRUISE\_SPEED + FRICTION\_BIAS the accelerator is 0 and the
  brake is (speed - CRUISE\_SPEED)/CRUISE\_SPEED + CRUISE\_BIAS; below it the accelerator
  is (CRUISE\_SPEED - speed)/CRUISE\_SPEED + CRUISE\_BIAS and the brake is 0; at equality
  both are 0. The constants are 80, 0.8 and 0.1.
\<close>

theorem C2_cruise_proportional_law:
  assumes "cruise_mode (cruiseControl cc_sw s)" and "ignition s"
  shows "(accel (cruiseControl cc_sw s), brakes (cruiseControl cc_sw s)) =
           (if current_speed s > CRUISE_SPEED + FRICTION_BIAS
            then (0, (current_speed s - CRUISE_SPEED) / CRUISE_SPEED + CRUISE_BIAS)
            else if current_speed s < CRUISE_SPEED + FRICTION_BIAS
            then ((CRUISE_SPEED - current_speed s) / CRUISE_SPEED + CRUISE_BIAS, 0)
            else (0, 0))
         \<and> CRUISE_SPEED = 80 \<and> FRICTION_BIAS = 0.8 \<and> CRUISE_BIAS = 0.1"
proof -
  have sw: "cc_sw"
    using assms(1) by (simp add: cruiseControl_def Let_def split: if_splits)
  show ?thesis
    using sw assms(2) by (simp add: cruiseControl_def Let_def sim_consts)
qed

theorem C2_cruise_proportional_law_witness:
  "cruise_mode (cruiseControl True (init\<lparr>ignition := True, current_speed := 100\<rparr>)) \<and>
   ignition (init\<lparr>ignition := True, current_speed := 100\<rparr>) \<and>
   accel (cruiseControl True (init\<lparr>ignition := True, current_speed := 100\<rparr>)) = 0 \<and>
   brakes (cruiseControl True (init\<lparr>ignition := True, current_speed := 100\<rparr>)) = 0.35"
proof -
  let ?s = "init\<lparr>ignition := True, current_speed := 100\<rparr>"
  have m: "cruise_mode (cruiseControl True ?s)"
    by (simp add: cruiseControl_def Let_def init_def sim_consts)
  have i: "ignition ?s" by simp
  show ?thesis
    using m i C2_cruise_proportional_law [OF m i]
    by (simp add: sim_consts)
qed

section \<open>Cruise control convergence\<close>

text \<open>
  One cycle of the controller followed by one of the simulation, with the ignition on.
  Below the threshold 80.8 the speed \<open>v\<close> becomes \<open>0.9865125 * v + 1.0989\<close>, above it
  \<open>0.9865125 * v + 0.8991\<close>, and at the threshold 80.7192; the clamp does not act.
\<close>

lemma ignition_cruise_cycle: "ignition (cruise_cycle s) = ignition s"
  by (simp add: cruise_cycle_def cruiseControl_def simulateCar_def update_odometry_def
      push_history_def clamp_speed_def apply_drag_def update_speed_def Let_def)

lemma clamp_speed_id:
  "0 \<le> current_speed s \<Longrightarrow> current_speed s \<le> 300 \<Longrightarrow>
     current_speed (clamp_speed s) = current_speed s"
  by (simp add: clamp_speed_def Let_def MIN_SPEED_def MAX_SPEED_def)

lemma speed_low:
  assumes "ignition s" and "0 \<le> current_speed s" and "current_speed s < 80.8"
  shows "current_speed (cruise_cycle s) = 0.9865125 * current_speed s + 1.0989"
proof -
  have a: "accel (cruiseControl True s) = (80 - current_speed s) / 80 + 0.1"
    and b: "brakes (cruiseControl True s) = 0"
    and i: "ignition (cruiseControl True s)"
    and c: "current_speed (cruiseControl True s) = current_speed s"
    using assms by (simp_all add: cruiseControl_def Let_def sim_consts)
  have u: "current_speed (apply_drag (update_speed (cruiseControl True s))) =
        0.9865125 * current_speed s + 1.0989"
    using a b i c by (simp add: apply_drag_def update_speed_def FRICTION_def field_simps)
  have "current_speed (clamp_speed (apply_drag (update_speed (cruiseControl True s)))) =
        0.9865125 * current_speed s + 1.0989"
    using assms(2,3) u
      clamp_speed_id [of "apply_drag (update_speed (cruiseControl True s))"]
    by simp
  then show ?thesis
    by (simp add: cruise_cycle_def current_speed_simulateCar)
qed

lemma speed_high:
  assumes "ignition s" and "current_speed s \<le> 300" and "current_speed s > 80.8"
  shows "current_speed (cruise_cycle s) = 0.9865125 * current_speed s + 0.8991"
proof -
  have a: "accel (cruiseControl True s) = 0"
    and b: "brakes (cruiseControl True s) = (current_speed s - 80) / 80 + 0.1"
    and i: "ignition (cruiseControl True s)"
    and c: "current_speed (cruiseControl True s) = current_speed s"
    using assms by (simp_all add: cruiseControl_def Let_def sim_consts)
  have u: "current_speed (apply_drag (update_speed (cruiseControl True s))) =
        0.9865125 * current_speed s + 0.8991"
    using a b i c by (simp add: apply_drag_def update_speed_def FRICTION_def field_simps)
  have "current_speed (clamp_speed (apply_drag (update_speed (cruiseControl True s)))) =
        0.9865125 * current_speed s + 0.8991"
    using assms(2,3) u
      clamp_speed_id [of "apply_drag (update_speed (cruiseControl True s))"]
    by simp
  then show ?thesis
    by (simp add: cruise_cycle_def current_speed_simulateCar)
qed

lemma speed_at:
  assumes "ignition s" and "current_speed s = 80.8"
  shows "current_speed (cruise_cycle s) = 80.7192"
  using assms
  by (simp add: cruise_cycle_def cruiseControl_def simulateCar_def update_odometry_def
      push_history_def clamp_speed_def apply_drag_def update_speed_def Let_def sim_consts)

text \<open>Below 80.5 a cycle gains at least 0.009; the interval from 80.5 to 80.81 is kept.\<close>

lemma below_band:
  assumes "ignition s" and "0 \<le> current_speed s" and "current_speed s < 80.5"
  shows "current_speed s + 0.009 \<le> current_speed (cruise_cycle s) \<and>
         current_speed (cruise_cycle s) \<le> 80.52"
  using assms speed_low [of s] by simp

lemma in_band:
  assumes "ignition s" and "80.5 \<le> current_speed s" and "current_speed s \<le> 80.81"
  shows "80.5 \<le> current_speed (cruise_cycle s) \<and>
         current_speed (cruise_cycle s) \<le> 80.81 \<and>
         (current_speed s > 80.8 \<longrightarrow> current_speed (cruise_cycle s) \<le> 80.8)"
proof -
  consider "current_speed s < 80.8" | "current_speed s = 80.8" | "current_speed s > 80.8"
    by linarith
  then show ?thesis
  proof cases
    case 1
    with assms speed_low [of s] show ?thesis by simp
  next
    case 2
    with assms speed_at [of s] show ?thesis by simp
  next
    case 3
    with assms speed_high [of s] show ?thesis by simp
  qed
qed

text \<open>The same facts along the sequence of speeds from the start state.\<close>

lemma ignition_iter: "ignition ((cruise_cycle ^^ n) cruise_start)"
  by (induction n) (simp_all add: ignition_cruise_cycle cruise_start_def)

lemma cruise_speed_0: "cruise_speed 0 = 0"
  by (simp add: cruise_speed_def cruise_start_def init_def)

lemma cruise_speed_Suc:
  "cruise_speed (Suc n) = current_speed (cruise_cycle ((cruise_cycle ^^ n) cruise_start))"
  by (simp add: cruise_speed_def)

lemma cruise_below:
  assumes "0 \<le> cruise_speed n" and "cruise_speed n < 80.5"
  shows "cruise_speed n + 0.009 \<le> cruise_speed (Suc n) \<and> cruise_speed (Suc n) \<le> 80.52"
  using assms below_band [OF ignition_iter [of n]]
  unfolding cruise_speed_Suc by (simp add: cruise_speed_def)

lemma cruise_in_band:
  assumes "80.5 \<le> cruise_speed n" and "cruise_speed n \<le> 80.81"
  shows "80.5 \<le> cruise_speed (Suc n) \<and> cruise_speed (Suc n) \<le> 80.81 \<and>
         (cruise_speed n > 80.8 \<longrightarrow> cruise_speed (Suc n) \<le> 80.8)"
  using assms in_band [OF ignition_iter [of n]]
  unfolding cruise_speed_Suc by (simp add: cruise_speed_def)

lemma cruise_range: "0 \<le> cruise_speed n \<and> cruise_speed n \<le> 80.81"
proof (induction n)
  case 0
  show ?case by (simp add: cruise_speed_0)
next
  case (Suc n)
  show ?case
  proof (cases "cruise_speed n < 80.5")
    case True
    with Suc cruise_below [of n] show ?thesis by simp
  next
    case False
    with Suc cruise_in_band [of n] show ?thesis by simp
  qed
qed

lemma cruise_climb:
  "(\<forall>k<n. cruise_speed k < 80.5) \<Longrightarrow> 0.009 * real n \<le> cruise_speed n"
proof (induction n)
  case 0
  show ?case by (simp add: cruise_speed_0)
next
  case (Suc n)
  then have "0.009 * real n \<le> cruise_speed n" and "cruise_speed n < 80.5" by simp_all
  with cruise_below [of n] cruise_range [of n] show ?case
    by (simp add: algebra_simps)
qed

lemma cruise_reaches: "\<exists>N\<le>9000. 80.5 \<le> cruise_speed N"
proof (rule ccontr)
  assume "\<not> (\<exists>N\<le>9000. 80.5 \<le> cruise_speed N)"
  then have low: "\<forall>k\<le>9000. cruise_speed k < 80.5" by (meson not_le)
  then have "0.009 * real (9000::nat) \<le> cruise_speed 9000"
    by (intro cruise_climb) simp
  moreover from low have "cruise_speed 9000 < 80.5" by simp
  ultimately show False by simp
qed

lemma cruise_stays:
  assumes "N \<le> n" and "80.5 \<le> cruise_speed N"
  shows "80.5 \<le> cruise_speed n"
  using assms
proof (induction n rule: dec_induct)
  case base
  then show ?case by simp
next
  case (step n)
  with cruise_in_band [of n] cruise_range [of n] show ?case by simp
qed

text \<open>
  The speed does not settle inside the band: the controller accelerates up to the
  threshold CRUISE\_SPEED + FRICTION\_BIAS itself, so the cycle that crosses it ends
  above 80.8, and this happens again and again.
\<close>

lemma cruise_low:
  assumes "0 \<le> cruise_speed n" and "cruise_speed n < 80.8"
  shows "cruise_speed (Suc n) = 0.9865125 * cruise_speed n + 1.0989"
  using assms speed_low [OF ignition_iter [of n]]
  unfolding cruise_speed_Suc by (simp add: cruise_speed_def)

lemma cruise_at:
  assumes "cruise_speed n = 80.8"
  shows "cruise_speed (Suc n) = 80.7192"
  using assms speed_at [OF ignition_iter [of n]]
  unfolding cruise_speed_Suc by (simp add: cruise_speed_def)

lemma cruise_low_gain:
  assumes "cruise_speed n < 80.8"
  shows "cruise_speed n + 0.009 \<le> cruise_speed (Suc n)"
  using assms cruise_low [of n] cruise_range [of n] by simp

lemma after_threshold:
  assumes "cruise_speed m = 80.8"
  shows "cruise_speed (m + 10) > 80.8"
proof -
  define v where "v k = cruise_speed (m + k)" for k
  have step: "v (k + 1) = 0.9865125 * v k + 1.0989" if "v k < 80.8" for k
    using that cruise_low [of "m + k"] cruise_range [of "m + k"] by (simp add: v_def)
  have v1: "v 1 = 80.7192"
    using cruise_at [OF assms] by (simp add: v_def)
  have v2: "80.7293 \<le> v 2 \<and> v 2 \<le> 80.7294"
    using v1 step [of 1, unfolded one_add_one] by simp
  have v3: "80.7393 \<le> v 3 \<and> v 3 \<le> 80.7395"
    using v2 step [of 2] by simp
  have v4: "80.7492 \<le> v 4 \<and> v 4 \<le> 80.7495"
    using v3 step [of 3] by simp
  have v5: "80.7589 \<le> v 5 \<and> v 5 \<le> 80.7593"
    using v4 step [of 4] by simp
  have v6: "80.7685 \<le> v 6 \<and> v 6 \<le> 80.769"
    using v5 step [of 5] by simp
  have v7: "80.778 \<le> v 7 \<and> v 7 \<le> 80.7786"
    using v6 step [of 6] by simp
  have v8: "80.7874 \<le> v 8 \<and> v 8 \<le> 80.788"
    using v7 step [of 7] by simp
  have v9: "80.7966 \<le> v 9 \<and> v 9 \<le> 80.7973"
    using v8 step [of 8] by simp
  have "v 10 > 80.8"
    using v9 step [of 9] by simp
  then show ?thesis by (simp add: v_def)
qed

lemma cruise_overshoot_recurs: "\<exists>n\<ge>N. cruise_speed n > CRUISE_SPEED + FRICTION_BIAS"
proof (rule ccontr)
  assume "\<not> (\<exists>n\<ge>N. cruise_speed n > CRUISE_SPEED + FRICTION_BIAS)"
  then have le: "cruise_speed n \<le> 80.8" if "N \<le> n" for n
    using that by (simp add: sim_consts not_less)
  show False
  proof (cases "\<exists>m\<ge>N. cruise_speed m = 80.8")
    case True
    then obtain m where "N \<le> m" and "cruise_speed m = 80.8" by blast
    with after_threshold [of m] le [of "m + 10"] show False by simp
  next
    case False
    with le have lt: "cruise_speed n < 80.8" if "N \<le> n" for n
      using that by (meson less_le)
    have "cruise_speed N + 0.009 * real k \<le> cruise_speed (N + k)" for k
    proof (induction k)
      case 0
      show ?case by simp
    next
      case (Suc k)
      have "cruise_speed (N + k) + 0.009 \<le> cruise_speed (Suc (N + k))"
        by (rule cruise_low_gain, rule lt) simp
      with Suc show ?case by (simp add: field_simps)
    qed
    from this [of 9000] lt [of "N + 9000"] cruise_range [of N] show False by simp
  qed
qed

text \<open>
  C3. From the start state with the ignition on, cruise mode on and speed 0, iterating a
  cycle of cruiseControl followed by a cycle of simulateCar, there is a cycle count
  \<open>N\<close> (at most 9000) from which on the speed is never below the band of FRICTION\_BIAS
  around CRUISE\_SPEED (it is at least 80.5), and is above the band only by an overshoot
  that is not sustained: a cycle that ends above CRUISE\_SPEED + FRICTION\_BIAS ends less
  than 0.01 above it, and the next cycle ends inside the band.
\<close>

theorem C3_cruise_convergence:
  "\<exists>N\<le>9000. \<forall>n\<ge>N.
      CRUISE_SPEED - FRICTION_BIAS \<le> cruise_speed n \<and>
      80.5 \<le> cruise_speed n \<and>
      cruise_speed n \<le> CRUISE_SPEED + FRICTION_BIAS + 0.01 \<and>
      (CRUISE_SPEED + FRICTION_BIAS < cruise_speed n \<longrightarrow>
         cruise_speed (Suc n) \<le> CRUISE_SPEED + FRICTION_BIAS)"
proof -
  from cruise_reaches obtain N where N: "N \<le> 9000" "80.5 \<le> cruise_speed N" by blast
  have "CRUISE_SPEED - FRICTION_BIAS \<le> cruise_speed n \<and>
      80.5 \<le> cruise_speed n \<and>
      cruise_speed n \<le> CRUISE_SPEED + FRICTION_BIAS + 0.01 \<and>
      (CRUISE_SPEED + FRICTION_BIAS < cruise_speed n \<longrightarrow>
         cruise_speed (Suc n) \<le> CRUISE_SPEED + FRICTION_BIAS)" if "N \<le> n" for n
  proof -
    from that N(2) have lo: "80.5 \<le> cruise_speed n" by (rule cruise_stays)
    with cruise_in_band [of n] cruise_range [of n] show ?thesis
      by (simp add: sim_consts)
  qed
  with N(1) show ?thesis by blast
qed

theorem C3_cruise_convergence_witness:
  "CRUISE_SPEED - FRICTION_BIAS \<le> cruise_speed 9000 \<and>
   80.5 \<le> cruise_speed 9000 \<and>
   cruise_speed 9000 \<le> CRUISE_SPEED + FRICTION_BIAS + 0.01 \<and>
   (cruise_speed 9000 \<le> CRUISE_SPEED + FRICTION_BIAS \<or>
    cruise_speed (Suc 9000) \<le> CRUISE_SPEED + FRICTION_BIAS)"
proof -
  from C3_cruise_convergence obtain N where "N \<le> 9000" and
    late: "\<forall>n\<ge>N.
      CRUISE_SPEED - FRICTION_BIAS \<le> cruise_speed n \<and>
      80.5 \<le> cruise_speed n \<and>
      cruise_speed n \<le> CRUISE_SPEED + FRICTION_BIAS + 0.01 \<and>
      (CRUISE_SPEED + FRICTION_BIAS < cruise_speed n \<longrightarrow>
         cruise_speed (Suc n) \<le> CRUISE_SPEED + FRICTION_BIAS)"
    by blast
  then have "CRUISE_SPEED - FRICTION_BIAS \<le> cruise_speed 9000 \<and>
      80.5 \<le> cruise_speed 9000 \<and>
      cruise_speed 9000 \<le> CRUISE_SPEED + FRICTION_BIAS + 0.01 \<and>
      (CRUISE_SPEED + FRICTION_BIAS < cruise_speed 9000 \<longrightarrow>
         cruise_speed (Suc 9000) \<le> CRUISE_SPEED + FRICTION_BIAS)"
    by blast
  then show ?thesis by linarith
qed

section \<open>The speed averager\<close>

lemma sum_loop_sum_list: "sum_loop acc xs = acc + of_int (sum_list xs)"
  by (induction xs arbitrary: acc) simp_all

text \<open>
  C5. On a non-empty queue, a cycle of calcAverageSpeed sets the average speed to the
  arithmetic mean of the entries of the queue, and the speeding indicator to whether that
  mean is strictly greater than LEGAL\_SPEED, which is 142.
\<close>

theorem C5_average_is_mean:
  assumes "avg_speed_queue s \<noteq> []"
  shows "average_speed (calcAverageSpeed s) =
           Fin (of_int (sum_list (avg_speed_queue s)) / of_nat (length (avg_speed_queue s)))
         \<and> speeding_indicator (calcAverageSpeed s) =
           (of_int (sum_list (avg_speed_queue s)) / of_nat (length (avg_speed_queue s))
              > LEGAL_SPEED)
         \<and> LEGAL_SPEED = 142"
  using assms
  by (simp add: calcAverageSpeed_def Let_def fdiv_def sum_loop_sum_list LEGAL_SPEED_def)

theorem C5_average_is_mean_witness:
  "avg_speed_queue (init\<lparr>avg_speed_queue := [100, 150, 150, 150]\<rparr>) \<noteq> [] \<and>
   average_speed (calcAverageSpeed (init\<lparr>avg_speed_queue := [100, 150, 150, 150]\<rparr>))
     = Fin 137.5 \<and>
   \<not> speeding_indicator (calcAverageSpeed (init\<lparr>avg_speed_queue := [100, 150, 150, 150]\<rparr>))"
proof -
  let ?s = "init\<lparr>avg_speed_queue := [100, 150, 150, 150]\<rparr>"
  have ne: "avg_speed_queue ?s \<noteq> []" by simp
  show ?thesis
    using ne C5_average_is_mean [OF ne] by (simp add: LEGAL_SPEED_def)
qed

text \<open>
  C6. On the empty queue of the start state, a cycle of calcAverageSpeed divides the sum
  0 by the size 0: the average speed becomes NaN, not 0. The speeding indicator stays off,
  because a comparison with NaN is false.
\<close>

theorem C6_empty_queue_average_is_NaN:
  "avg_speed_queue init = [] \<and>
   average_speed (calcAverageSpeed init) = NaN \<and>
   average_speed (calcAverageSpeed init) \<noteq> Fin 0 \<and>
   \<not> speeding_indicator (calcAverageSpeed init)"
  by (simp add: calcAverageSpeed_def Let_def fdiv_def init_def)

section \<open>Ignition off\<close>

text \<open>
  C7. With the ignition off, a cycle of simulateCar sets the accelerator command to 0
  whatever it was, and changes the speed by 0 - 0.5 * brakes before the drag and the
  clamp are applied.
\<close>

theorem C7_ignition_off_braking:
  assumes "\<not> ignition s"
  shows "accel (simulateCar s) = 0
         \<and> update_speed s =
             s\<lparr>accel := 0, current_speed := current_speed s + (0 - 0.5 * brakes s)\<rparr>
         \<and> current_speed (simulateCar s) =
             current_speed (clamp_speed (apply_drag
               (s\<lparr>current_speed := current_speed s + (0 - 0.5 * brakes s)\<rparr>)))"
  using assms
  by (simp add: simulateCar_def update_odometry_def push_history_def clamp_speed_def
      apply_drag_def update_speed_def Let_def)

theorem C7_ignition_off_braking_witness:
  "\<not> ignition (init\<lparr>accel := 1, brakes := 1, current_speed := 10\<rparr>) \<and>
   accel (simulateCar (init\<lparr>accel := 1, brakes := 1, current_speed := 10\<rparr>)) = 0 \<and>
   current_speed (simulateCar (init\<lparr>accel := 1, brakes := 1, current_speed := 10\<rparr>))
     = 9.4905"
proof -
  let ?s = "init\<lparr>accel := 1, brakes := 1, current_speed := 10\<rparr>"
  have off: "\<not> ignition ?s" by (simp add: init_def)
  show ?thesis
    using off C7_ignition_off_braking [OF off]
    by (simp add: clamp_speed_def apply_drag_def Let_def sim_consts init_def)
qed

section \<open>Odometry\<close>

text \<open>Rounding to the nearest is monotone and leaves the values it produces unchanged.\<close>

lemma round_even_of_int: "round_even (of_int k) = k"
  by (simp add: round_even_def)

lemma round_even_bounds: "\<lfloor>x\<rfloor> \<le> round_even x \<and> round_even x \<le> \<lfloor>x\<rfloor> + 1"
  by (simp add: round_even_def Let_def)

lemma round_even_mono:
  assumes "x \<le> y"
  shows "round_even x \<le> round_even y"
proof (cases "\<lfloor>x\<rfloor> < \<lfloor>y\<rfloor>")
  case True
  with round_even_bounds [of x] round_even_bounds [of y] show ?thesis by linarith
next
  case False
  with assms have eq: "\<lfloor>x\<rfloor> = \<lfloor>y\<rfloor>" by (simp add: floor_mono order_antisym not_less)
  with assms show ?thesis
    by (auto simp add: round_even_def Let_def)
qed

lemma round_even_ge: "of_int k \<le> x \<Longrightarrow> k \<le> round_even x"
  using round_even_mono [of "of_int k" x] by (simp add: round_even_of_int)

lemma round_even_le: "x \<le> of_int k \<Longrightarrow> round_even x \<le> k"
  using round_even_mono [of x "of_int k"] by (simp add: round_even_of_int)

lemma bitlen_le_nat: "bitlen x \<le> int n \<longleftrightarrow> x < 2 ^ n"
  using bitlen_le_iff_power [of x "int n"] by (simp only: nat_int of_nat_0_le_iff simp_thms)

lemma bitlen_ge_nat: "int (Suc n) \<le> bitlen x \<longleftrightarrow> 2 ^ n \<le> x"
  using bitlen_ge_iff_power [of "int (Suc n)" x] unfolding nat_int by simp

lemma ulp_shift_upper:
  assumes "0 \<le> q"
  shows "q < 2 ^ (ulp_shift q + 24)"
proof -
  have "bitlen \<lfloor>q\<rfloor> \<le> int (ulp_shift q + 24)"
    using assms by (simp add: ulp_shift_def)
  then have "\<lfloor>q\<rfloor> < 2 ^ (ulp_shift q + 24)"
    by (simp only: bitlen_le_nat)
  then have "\<lfloor>q\<rfloor> < \<lfloor>2 ^ (ulp_shift q + 24) :: real\<rfloor>"
    by simp
  then show ?thesis by (simp add: floor_less_cancel)
qed

lemma ulp_shift_lower:
  assumes "0 \<le> q" and "0 < ulp_shift q"
  shows "2 ^ (ulp_shift q + 23) \<le> q"
proof -
  have "int (Suc (ulp_shift q + 23)) \<le> bitlen \<lfloor>q\<rfloor>"
    using assms by (simp add: ulp_shift_def)
  then have "2 ^ (ulp_shift q + 23) \<le> \<lfloor>q\<rfloor>"
    by (simp only: bitlen_ge_nat)
  then have "of_int (2 ^ (ulp_shift q + 23)) \<le> q"
    by (simp only: le_floor_iff)
  then show ?thesis by simp
qed

lemma ulp_shift_eqI:
  assumes "0 \<le> q" and "s = 0 \<or> 2 ^ (s + 23) \<le> q" and "q < 2 ^ (s + 24)"
  shows "ulp_shift q = s"
proof -
  from assms(3) have "\<lfloor>q\<rfloor> < 2 ^ (s + 24)"
    by (metis floor_less_iff of_int_numeral of_int_power)
  then have up: "bitlen \<lfloor>q\<rfloor> \<le> int (s + 24)"
    by (simp only: bitlen_le_nat)
  show ?thesis
  proof (cases "s = 0")
    case True
    with up show ?thesis by (simp add: ulp_shift_def assms(1))
  next
    case False
    with assms(2) have "of_int (2 ^ (s + 23)) \<le> q" by simp
    then have "2 ^ (s + 23) \<le> \<lfloor>q\<rfloor>" by (simp only: le_floor_iff)
    then have "int (Suc (s + 23)) \<le> bitlen \<lfloor>q\<rfloor>"
      by (simp only: bitlen_ge_nat)
    with up show ?thesis by (simp add: ulp_shift_def assms(1))
  qed
qed

lemma ulp_shift_mono:
  assumes "0 \<le> p" and "p \<le> q"
  shows "ulp_shift p \<le> ulp_shift q"
proof (rule ccontr)
  assume "\<not> ulp_shift p \<le> ulp_shift q"
  then have lt: "ulp_shift q + 1 \<le> ulp_shift p" by simp
  then have "0 < ulp_shift p" by simp
  with assms(1) have "2 ^ (ulp_shift p + 23) \<le> p" by (rule ulp_shift_lower)
  moreover from assms have "q < 2 ^ (ulp_shift q + 24)" by (simp add: ulp_shift_upper)
  moreover from lt have "(2::real) ^ (ulp_shift q + 24) \<le> 2 ^ (ulp_shift p + 23)"
    by (intro power_increasing) simp_all
  ultimately show False using assms(2) by linarith
qed

lemma round_units_mono:
  assumes "0 \<le> p" and "p \<le> q"
  shows "round_units p \<le> round_units q"
proof (cases "ulp_shift p = ulp_shift q")
  case True
  from assms(2) have "p / 2 ^ ulp_shift q \<le> q / 2 ^ ulp_shift q"
    by (simp add: divide_right_mono)
  then have "round_even (p / 2 ^ ulp_shift q) \<le> round_even (q / 2 ^ ulp_shift q)"
    by (rule round_even_mono)
  with True show ?thesis by (simp add: round_units_def)
next
  case False
  with ulp_shift_mono [OF assms] have lt: "ulp_shift p + 1 \<le> ulp_shift q" by simp
  from assms have q0: "0 \<le> q" by simp
  have "p / 2 ^ ulp_shift p \<le> of_int (2 ^ 24)"
    using ulp_shift_upper [OF assms(1)] by (simp add: field_simps power_add)
  then have "round_even (p / 2 ^ ulp_shift p) \<le> 2 ^ 24" by (rule round_even_le)
  then have "real_of_int (round_even (p / 2 ^ ulp_shift p)) \<le> 2 ^ 24"
    by (metis of_int_le_iff of_int_numeral of_int_power)
  then have a: "round_units p \<le> 2 ^ (ulp_shift p + 24)"
    by (simp add: round_units_def power_add field_simps)
  from lt have "0 < ulp_shift q" by simp
  with q0 have "2 ^ (ulp_shift q + 23) \<le> q" by (rule ulp_shift_lower)
  then have "of_int (2 ^ 23) \<le> q / 2 ^ ulp_shift q"
    by (simp add: field_simps power_add)
  then have "2 ^ 23 \<le> round_even (q / 2 ^ ulp_shift q)" by (rule round_even_ge)
  then have "2 ^ 23 \<le> real_of_int (round_even (q / 2 ^ ulp_shift q))"
    by (metis of_int_le_iff of_int_numeral of_int_power)
  then have b: "2 ^ (ulp_shift q + 23) \<le> round_units q"
    by (simp add: round_units_def power_add field_simps)
  from lt have "(2::real) ^ (ulp_shift p + 24) \<le> 2 ^ (ulp_shift q + 23)"
    by (intro power_increasing) simp_all
  with a b show ?thesis by linarith
qed

lemma round_units_nonneg: "0 \<le> q \<Longrightarrow> 0 \<le> round_units q"
  using round_even_ge [of 0 "q / 2 ^ ulp_shift q"] by (simp add: round_units_def)

lemma round_units_idem:
  assumes "0 \<le> q"
  shows "round_units (round_units q) = round_units q"
proof -
  define s where "s = ulp_shift q"
  define k where "k = round_even (q / 2 ^ s)"
  have r: "round_units q = of_int k * 2 ^ s" by (simp add: round_units_def k_def s_def)
  have "q / 2 ^ s \<le> of_int (2 ^ 24)"
    using ulp_shift_upper [OF assms] by (simp add: field_simps power_add s_def)
  then have k_hi: "k \<le> 2 ^ 24" unfolding k_def by (rule round_even_le)
  have k_nonneg: "0 \<le> k"
    unfolding k_def using assms by (intro round_even_ge) simp
  have k_lo: "2 ^ 23 \<le> k" if "0 < s"
  proof -
    from that assms have "2 ^ (s + 23) \<le> q" unfolding s_def by (intro ulp_shift_lower)
    then have "of_int (2 ^ 23) \<le> q / 2 ^ s" by (simp add: field_simps power_add)
    then show ?thesis unfolding k_def by (rule round_even_ge)
  qed
  show ?thesis
  proof (cases "k = 2 ^ 24")
    case True
    then have r2: "round_units q = 2 ^ (s + 24)" by (simp add: r power_add)
    have "ulp_shift (2 ^ (s + 24)) = Suc s"
      by (rule ulp_shift_eqI) simp_all
    then have "round_units (2 ^ (s + 24)) = of_int (round_even (of_int (2 ^ 23))) * 2 ^ Suc s"
      by (simp add: round_units_def power_add)
    then show ?thesis
      unfolding r2 round_even_of_int by (simp add: power_add)
  next
    case False
    with k_hi have lt: "k < 2 ^ 24" by simp
    have "ulp_shift (of_int k * 2 ^ s) = s"
    proof (rule ulp_shift_eqI)
      show "0 \<le> real_of_int k * 2 ^ s" using k_nonneg by simp
      show "s = 0 \<or> 2 ^ (s + 23) \<le> real_of_int k * 2 ^ s"
      proof (cases "s = 0")
        case True then show ?thesis by simp
      next
        case False
        then have "0 < s" by simp
        then have "2 ^ 23 \<le> k" by (rule k_lo)
        then have "(2::real) ^ 23 \<le> of_int k"
          by (metis of_int_le_iff of_int_numeral of_int_power)
        then show ?thesis by (simp add: power_add)
      qed
      from lt have "real_of_int k < 2 ^ 24"
        by (metis of_int_less_iff of_int_numeral of_int_power)
      then show "real_of_int k * 2 ^ s < 2 ^ (s + 24)" by (simp add: power_add)
    qed
    then have "round_units (of_int k * 2 ^ s) = of_int (round_even (of_int k)) * 2 ^ s"
      by (simp add: round_units_def)
    then show ?thesis unfolding r round_even_of_int .
  qed
qed

lemma float32_round_mono:
  assumes "0 \<le> x" and "x \<le> y"
  shows "float32_round x \<le> float32_round y"
proof -
  have "round_units (x * 2 ^ 149) \<le> round_units (y * 2 ^ 149)"
    using assms by (intro round_units_mono) simp_all
  then show ?thesis by (simp add: float32_round_def divide_right_mono)
qed

lemma float32_round_nonneg: "0 \<le> x \<Longrightarrow> 0 \<le> float32_round x"
  using round_units_nonneg [of "x * 2 ^ 149"] by (simp add: float32_round_def)

lemma float32_round_idem:
  assumes "0 \<le> x"
  shows "is_float32 (float32_round x)"
proof -
  have "0 \<le> x * 2 ^ 149" using assms by simp
  then have "round_units (round_units (x * 2 ^ 149)) = round_units (x * 2 ^ 149)"
    by (rule round_units_idem)
  then show ?thesis by (simp add: is_float32_def float32_round_def)
qed

lemma odometry_simulateCar:
  "odometry (simulateCar s) =
     float32_round (odometry s + current_speed (simulateCar s) * (1 / 25))"
  by (simp add: simulateCar_def update_odometry_def push_history_def clamp_speed_def
      apply_drag_def update_speed_def Let_def)

lemma odometry_other_cycles: "c \<noteq> SimulateCar \<Longrightarrow> odometry (step c s) = odometry s"
  by (cases c)
    (simp_all add: readInputs_def calcAverageSpeed_def displayToLCD_def cruiseControl_def
      Let_def)

lemma speed_simulateCar_nonneg: "0 \<le> current_speed (simulateCar s)"
  using clamp_speed_bounds [of "apply_drag (update_speed s)"]
  by (simp add: current_speed_simulateCar MIN_SPEED_def)

text \<open>In every state the program reaches, the odometry is a non-negative float.\<close>

lemma odometry_is_float:
  "0 \<le> odometry (run cs init) \<and> is_float32 (odometry (run cs init))"
proof (induction cs rule: rev_induct)
  case Nil
  show ?case
    by (simp add: init_def is_float32_def float32_round_def round_units_def ulp_shift_def
        round_even_def)
next
  case (snoc c cs)
  show ?case
  proof (cases "c = SimulateCar")
    case True
    have "0 \<le> odometry (run cs init) + current_speed (simulateCar (run cs init)) * (1 / 25)"
      using snoc speed_simulateCar_nonneg [of "run cs init"] by simp
    then show ?thesis
      using True
      by (simp only: run_append run.simps step.simps odometry_simulateCar
          float32_round_nonneg float32_round_idem simp_thms)
  next
    case False
    with snoc show ?thesis by (simp add: run_append odometry_other_cycles)
  qed
qed

text \<open>
  C8, as stated, fails. Take the state the program is in after 87549 cycles of
  acceleration and 261 of braking at 25 Hz: the odometry is 1050080 and the speed is
  12282883/8388608, about 1.46. One more cycle of simulateCar, coasting, leaves a speed of
  about 1.4628, so the claimed increase is about 0.0585; single-precision values near
  1050080 are 0.125 apart, the sum rounds back to 1050080, and the odometry does not
  change.
\<close>

theorem C8_odometry_increment_absorbed:
  "is_float32 (odometry (init\<lparr>ignition := True, current_speed := 12282883 / 8388608,
                              odometry := 1050080\<rparr>)) \<and>
   0.05 < current_speed (simulateCar (init\<lparr>ignition := True,
            current_speed := 12282883 / 8388608, odometry := 1050080\<rparr>)) * (1 / 25) \<and>
   odometry (simulateCar (init\<lparr>ignition := True, current_speed := 12282883 / 8388608,
                                odometry := 1050080\<rparr>)) = 1050080 \<and>
   odometry (simulateCar (init\<lparr>ignition := True, current_speed := 12282883 / 8388608,
                                odometry := 1050080\<rparr>)) \<noteq>
   odometry (init\<lparr>ignition := True, current_speed := 12282883 / 8388608,
                   odometry := 1050080\<rparr>) +
   current_speed (simulateCar (init\<lparr>ignition := True,
     current_speed := 12282883 / 8388608, odometry := 1050080\<rparr>)) * (1 / 25)"
  by (simp add: init_def simulateCar_def update_odometry_def push_history_def
      clamp_speed_def apply_drag_def update_speed_def Let_def sim_consts is_float32_def
      float32_round_def round_units_def ulp_shift_def round_even_def compute_bitlen)

text \<open>
  C8, amended. In every run of the program from its start state, a cycle of simulateCar
  does not decrease the odometry, and it sets the odometry to the single-precision value
  nearest to the old odometry plus the speed it has just clamped times 1/25: the
  increase is that product only up to this rounding.
\<close>

theorem C8_odometry_step:
  "odometry (run cs init) \<le> odometry (run (cs @ [SimulateCar]) init) \<and>
   odometry (run (cs @ [SimulateCar]) init) =
     float32_round (odometry (run cs init) +
       current_speed (run (cs @ [SimulateCar]) init) * (1 / 25))"
proof -
  let ?s = "run cs init"
  have step: "run (cs @ [SimulateCar]) init = simulateCar ?s"
    by (simp add: run_append)
  have inv: "0 \<le> odometry ?s" "float32_round (odometry ?s) = odometry ?s"
    using odometry_is_float [of cs] by (simp_all add: is_float32_def)
  have "odometry ?s \<le> odometry ?s + current_speed (simulateCar ?s) * (1 / 25)"
    using speed_simulateCar_nonneg [of ?s] by simp
  with inv(1) have "float32_round (odometry ?s) \<le>
      float32_round (odometry ?s + current_speed (simulateCar ?s) * (1 / 25))"
    by (rule float32_round_mono)
  with inv(2) show ?thesis
    by (simp only: step odometry_simulateCar simp_thms)
qed

section \<open>The speed history\<close>

lemma lastn_short: "length xs \<le> n \<Longrightarrow> lastn n xs = xs"
  by (simp add: lastn_def)

lemma length_lastn: "length (lastn n xs) = min n (length xs)"
  by (simp add: lastn_def)

text \<open>Dropping the oldest of a full window and appending is taking the last four.\<close>

lemma lastn_snoc:
  "(if length (lastn 4 ys) > 3 then tl (lastn 4 ys) else lastn 4 ys) @ [x] = lastn 4 (ys @ [x])"
proof (cases "length ys \<ge> 4")
  case True
  then have "Suc (length ys - 4) = length ys - 3" by simp
  with True show ?thesis
    by (simp add: lastn_def tl_drop drop_Suc [symmetric])
next
  case False
  then show ?thesis by (simp add: lastn_def)
qed

lemma speed_log_snoc:
  "speed_log (cs @ [c]) s =
     speed_log cs s @ (if c = SimulateCar then [current_speed (run (cs @ [c]) s)] else [])"
  by (induction cs s rule: speed_log.induct) (cases c; simp)+

lemma length_speed_log: "length (speed_log cs s) = count_list cs SimulateCar"
  by (induction cs s rule: speed_log.induct) simp_all

lemma queue_other_cycles:
  "c \<noteq> SimulateCar \<Longrightarrow> avg_speed_queue (step c s) = avg_speed_queue s"
  by (cases c)
    (simp_all add: readInputs_def calcAverageSpeed_def displayToLCD_def cruiseControl_def
      Let_def)

lemma queue_simulateCar:
  "avg_speed_queue (simulateCar s) =
     (if length (avg_speed_queue s) > 3 then tl (avg_speed_queue s) else avg_speed_queue s)
       @ [trunc_int (current_speed (simulateCar s))]"
  by (simp add: simulateCar_def update_odometry_def push_history_def clamp_speed_def
      apply_drag_def update_speed_def Let_def)

lemma queue_run:
  "length (avg_speed_queue s) \<le> 4 \<Longrightarrow>
     avg_speed_queue (run cs s) = lastn 4 (avg_speed_queue s @ map trunc_int (speed_log cs s))"
proof (induction cs rule: rev_induct)
  case Nil
  then show ?case by (simp add: lastn_short)
next
  case (snoc c cs)
  show ?case
  proof (cases "c = SimulateCar")
    case True
    then show ?thesis
      using snoc
      by (simp add: run_append speed_log_snoc queue_simulateCar lastn_snoc [symmetric]
          append_assoc [symmetric] del: append_assoc)
  next
    case False
    then show ?thesis
      using snoc by (simp add: run_append speed_log_snoc queue_other_cycles)
  qed
qed

text \<open>
  C4, as stated, fails. With the ignition on and the accelerator pressed, the first four
  cycles of simulateCar leave the speeds 0.999, 1.997001, 2.994003999 and 3.990009995001;
  the queue, whose elements are of type int, holds 0, 1, 2 and 3.
\<close>

theorem C4_history_not_the_speeds:
  "count_list [ReadInputs True True False, SimulateCar, SimulateCar, SimulateCar, SimulateCar]
     SimulateCar = 4 \<and>
   speed_log [ReadInputs True True False, SimulateCar, SimulateCar, SimulateCar, SimulateCar]
     init = [0.999, 1.997001, 2.994003999, 3.990009995001] \<and>
   avg_speed_queue
     (run [ReadInputs True True False, SimulateCar, SimulateCar, SimulateCar, SimulateCar]
       init) = [0, 1, 2, 3] \<and>
   map of_int (avg_speed_queue
     (run [ReadInputs True True False, SimulateCar, SimulateCar, SimulateCar, SimulateCar]
       init)) \<noteq>
   lastn 4 (speed_log
     [ReadInputs True True False, SimulateCar, SimulateCar, SimulateCar, SimulateCar] init)"
  by (simp add: init_def readInputs_def simulateCar_def update_odometry_def
      push_history_def clamp_speed_def apply_drag_def update_speed_def Let_def sim_consts
      trunc_int_def lastn_def)

text \<open>
  C4, amended. In a run that starts with an empty queue, after any number of cycles the
  queue holds at most 4 entries; it holds the last 4 (or all, if fewer) of the speeds left
  by the cycles of simulateCar, each converted to int (truncated towards zero), oldest
  first; and once simulateCar has run 4 times or more, it holds exactly 4 entries.
\<close>

theorem C4_history_window:
  assumes "avg_speed_queue s = []"
  shows "length (avg_speed_queue (run cs s)) \<le> 4
         \<and> avg_speed_queue (run cs s) = lastn 4 (map trunc_int (speed_log cs s))
         \<and> (4 \<le> count_list cs SimulateCar \<longrightarrow> length (avg_speed_queue (run cs s)) = 4)"
proof -
  have q: "avg_speed_queue (run cs s) = lastn 4 (map trunc_int (speed_log cs s))"
    using queue_run [of s cs] assms by simp
  then show ?thesis
    by (simp add: length_lastn length_speed_log)
qed

theorem C4_history_window_witness:
  "avg_speed_queue init = [] \<and>
   4 \<le> count_list
     [ReadInputs True True False, SimulateCar, SimulateCar, SimulateCar, SimulateCar,
      SimulateCar] SimulateCar \<and>
   length (avg_speed_queue (run
     [ReadInputs True True False, SimulateCar, SimulateCar, SimulateCar, SimulateCar,
      SimulateCar] init)) = 4 \<and>
   avg_speed_queue (run
     [ReadInputs True True False, SimulateCar, SimulateCar, SimulateCar, SimulateCar,
      SimulateCar] init) =
   lastn 4 (map trunc_int (speed_log
     [ReadInputs True True False, SimulateCar, SimulateCar, SimulateCar, SimulateCar,
      SimulateCar] init))"
proof -
  let ?cs = "[ReadInputs True True False, SimulateCar, SimulateCar, SimulateCar, SimulateCar,
      SimulateCar]"
  have e: "avg_speed_queue init = []" by (simp add: init_def)
  have n: "4 \<le> count_list ?cs SimulateCar" by simp
  show ?thesis
    using e n C4_history_window [OF e, of ?cs] by blast
qed

section \<open>Writers of the pedal commands\<close>

text \<open>
  C9, as stated, fails: simulateCar writes the accelerator command. With the ignition
  switch off and the accelerator switch on, readInputs stores 1 in \<open>accel\<close>, and the next
  cycle of simulateCar overwrites it with 0.
\<close>

theorem C9_simulateCar_writes_accel:
  "\<not> cruise_mode (run [ReadInputs False True False] init) \<and>
   accel (run [ReadInputs False True False] init) = 1 \<and>
   accel (step SimulateCar (run [ReadInputs False True False] init)) = 0 \<and>
   accel (step SimulateCar (run [ReadInputs False True False] init)) \<noteq>
   accel (run [ReadInputs False True False] init)"
  by (simp add: readInputs_def init_def simulateCar_def update_odometry_def
      push_history_def clamp_speed_def apply_drag_def update_speed_def Let_def)

text \<open>
  C9, amended. readInputs writes the two pedal commands exactly when cruise mode is off
  (then it stores the switch values); cruiseControl leaves them unchanged unless its
  cruise switch value and the ignition are both on; calcAverageSpeed and displayToLCD
  never write them; simulateCar never writes the brake command, and it sets the
  accelerator command to 0 when the ignition is off and leaves it unchanged otherwise.
\<close>

theorem C9_pedal_writers:
  "accel (readInputs e a b s) = (if cruise_mode s then accel s else of_bool a)
   \<and> brakes (readInputs e a b s) = (if cruise_mode s then brakes s else of_bool b)
   \<and> (\<not> (c \<and> ignition s) \<longrightarrow>
        accel (cruiseControl c s) = accel s \<and> brakes (cruiseControl c s) = brakes s)
   \<and> accel (calcAverageSpeed s) = accel s \<and> brakes (calcAverageSpeed s) = brakes s
   \<and> accel (displayToLCD s) = accel s \<and> brakes (displayToLCD s) = brakes s
   \<and> brakes (simulateCar s) = brakes s
   \<and> accel (simulateCar s) = (if ignition s then accel s else 0)"
  by (simp add: readInputs_def cruiseControl_def calcAverageSpeed_def displayToLCD_def
      simulateCar_def update_odometry_def push_history_def clamp_speed_def
      apply_drag_def update_speed_def Let_def)

theorem C9_pedal_writers_witness:
  "\<not> (True \<and> ignition (run [ReadInputs False True True] init)) \<and>
   accel (run [ReadInputs False True True] init) = 1 \<and>
   brakes (run [ReadInputs False True True] init) = 1 \<and>
   accel (cruiseControl True (run [ReadInputs False True True] init)) = 1 \<and>
   brakes (cruiseControl True (run [ReadInputs False True True] init)) = 1 \<and>
   accel (simulateCar (run [ReadInputs False True True] init)) = 0 \<and>
   brakes (simulateCar (run [ReadInputs False True True] init)) = 1"
proof -
  let ?s = "run [ReadInputs False True True] init"
  have off: "\<not> ignition ?s" by (simp add: readInputs_def init_def Let_def)
  have a: "accel ?s = 1" by (simp add: readInputs_def init_def Let_def)
  have b: "brakes ?s = 1" by (simp add: readInputs_def init_def Let_def)
  show ?thesis
    using off a b C9_pedal_writers [of False False False ?s True] by simp
qed

section \<open>Lock order\<close>

lemma length_lock_ops: "length (lock_ops t) = (if t = thread2Hz then 4 else 2)"
  by (cases t) simp_all

lemma mod2_cases: "(n::nat) mod 2 = 0 \<or> n mod 2 = 1"
  by presburger

text \<open>
  A thread that another waits for holds a mutex; if it waits itself, its next operation
  is a lock. Only the display thread locks a mutex while it holds one.
\<close>

lemma waiting_holder_is_display:
  assumes "waits_for pc t u" and "waits_for pc u v"
  shows "u = thread2Hz"
proof (rule ccontr)
  assume ne: "u \<noteq> thread2Hz"
  then have "length (lock_ops u) = 2" by (simp add: length_lock_ops)
  with mod2_cases [of "pc u"]
  have "pc u mod length (lock_ops u) = 0 \<or> pc u mod length (lock_ops u) = 1" by simp
  then show False
  proof
    assume "pc u mod length (lock_ops u) = 0"
    with ne have "holds pc u = []"
      by (cases u) (simp_all add: holds_def)
    with assms(1) show False
      by (simp add: waits_for_def split: lock_op.splits)
  next
    assume "pc u mod length (lock_ops u) = 1"
    with ne have "\<exists>m. next_op pc u = Unlock m"
      by (cases u) (simp_all add: next_op_def)
    with assms(2) show False
      by (auto simp add: waits_for_def)
  qed
qed

lemma no_circular_wait: "\<not> (waits_for pc)\<^sup>+\<^sup>+ t t"
proof
  assume c: "(waits_for pc)\<^sup>+\<^sup>+ t t"
  from c obtain z where tz: "waits_for pc t z" and zt: "(waits_for pc)\<^sup>*\<^sup>* z t"
    by (auto dest: tranclpD)
  from c obtain y where yt: "waits_for pc y t"
    by (auto elim: tranclp.cases)
  from yt tz have t2: "t = thread2Hz" by (rule waiting_holder_is_display)
  from tz have "z \<noteq> t" by (auto simp add: waits_for_def)
  with zt obtain z' where "waits_for pc z z'"
    by (auto elim: converse_rtranclpE)
  with tz have "z = thread2Hz" by (rule waiting_holder_is_display)
  with t2 \<open>z \<noteq> t\<close> show False by simp
qed

text \<open>
  C10, as stated, fails: the display thread is the one thread that takes both mutexes,
  and it locks avgSpeedMutex (speed, history, average, odometry) first and portMutex
  (ignition, pedal commands, cruise mode) second, never portMutex before avgSpeedMutex.
\<close>

theorem C10_display_locks_motion_first:
  "Lock portMutex \<in> set (lock_ops thread2Hz) \<and>
   Lock avgSpeedMutex \<in> set (lock_ops thread2Hz) \<and>
   lock_order thread2Hz = [(avgSpeedMutex, portMutex)] \<and>
   (portMutex, avgSpeedMutex) \<notin> set (lock_order thread2Hz)"
  by (simp add: lock_order_def)

text \<open>
  C10, amended. Every nested acquisition, in every thread, is of portMutex while
  avgSpeedMutex is held: the order avgSpeedMutex before portMutex is the same everywhere
  both are held, and the display thread is where it occurs. In no configuration of the
  threads is there a circular wait among them, so the mutexes cannot deadlock.
\<close>

theorem C10_consistent_lock_order:
  "set (lock_order t) \<subseteq> {(avgSpeedMutex, portMutex)}
   \<and> lock_order thread2Hz = [(avgSpeedMutex, portMutex)]
   \<and> lock_order t = (if t = thread2Hz then [(avgSpeedMutex, portMutex)] else [])
   \<and> \<not> (waits_for pc)\<^sup>+\<^sup>+ u u"
proof -
  have "set (lock_order t) \<subseteq> {(avgSpeedMutex, portMutex)}"
    by (cases t) (simp_all add: lock_order_def)
  moreover have "lock_order thread2Hz = [(avgSpeedMutex, portMutex)]"
    by (simp add: lock_order_def)
  moreover have "lock_order t = (if t = thread2Hz then [(avgSpeedMutex, portMutex)] else [])"
    by (cases t) (simp_all add: lock_order_def)
  ultimately show ?thesis
    using no_circular_wait [of pc u] by blast
qed

end
